theory Spec2Isabelle
  imports Complex_Main
begin

unbundle bit_operations_syntax

section \<open>The motion detection counter of main.py\<close>

text \<open>
  A shallow embedding of the class \<^verbatim>\<open>MotionDetectionCounter\<close>: the shape filter
  \<^verbatim>\<open>is_box_like_shape\<close>, the duplicate test \<^verbatim>\<open>is_duplicate_object\<close>, the line test
  \<^verbatim>\<open>has_crossed_line\<close>, the counting loop of \<^verbatim>\<open>process_frame\<close> and the main loop of
  \<^verbatim>\<open>run\<close> with its reset key.

  Python integers are \<open>int\<close>. The areas and the ratios are Python floats, idealised as
  \<open>real\<close> and compared as exact numbers. OpenCV is outside the program: a contour is
  represented by what \<^verbatim>\<open>cv2.boundingRect\<close> and \<^verbatim>\<open>cv2.contourArea\<close> return for it, and
  a frame by the contours that \<^verbatim>\<open>cv2.findContours\<close> finds in its conditioned foreground
  mask, in the order in which they are found.

  The distance threshold is an integer, as the default 50 and the value that
  \<^verbatim>\<open>main\<close> passes. The distance itself is the float64 \<^verbatim>\<open>np.sqrt\<close> of an integer \<open>n\<close>, the
  squared distance of two pixel positions. Against an integer threshold \<open>k\<close> the rounding
  of the root cannot change the outcome of \<^verbatim>\<open>distance < k\<close>: rounding is monotone and
  keeps \<open>k\<close>, and for \<open>n < k\<^sup>2\<close> the exact root is below \<open>k\<close> by at least \<open>1 / (2 k)\<close>, far
  more than half a unit in the last place for every \<open>k\<close> up to 2 to the power 26. So the
  comparison is modelled with the exact root. A fractional threshold is outside the
  model: there the rounded and the exact root can fall on different sides of the
  threshold.
\<close>

subsection \<open>Data\<close>

type_synonym point = "int \<times> int"

type_synonym bbox = "int \<times> int \<times> int \<times> int"

record contour =
  boundingRect :: bbox
  contourArea :: real

text \<open>
  The fields of the object that the detection logic reads or writes. The background
  subtractor, the two morphology kernels and the FPS fields are left out: no modelled
  function reads them.
\<close>

record counter =
  counting_line_y :: int
  min_area :: real
  max_area :: real
  distance_threshold :: int
  aspect_ratio_range :: "real \<times> real"
  object_count :: int
  tracked_objects :: "point list"

datatype py_error = ZeroDivisionError

text \<open>\<^verbatim>\<open>__init__\<close>: the five parameters are stored, the count is 0 and the deque is empty.\<close>

definition init :: "int \<Rightarrow> real \<Rightarrow> real \<Rightarrow> int \<Rightarrow> real \<times> real \<Rightarrow> counter" where
  "init line_y mn mx thr rng =
     \<lparr>counting_line_y = line_y, min_area = mn, max_area = mx,
      distance_threshold = thr, aspect_ratio_range = rng,
      object_count = 0, tracked_objects = []\<rparr>"

text \<open>The default arguments of \<^verbatim>\<open>__init__\<close>, which are also the ones \<^verbatim>\<open>main\<close> passes.\<close>

definition default_counter :: counter where
  "default_counter = init 250 1000 50000 50 (0.3, 3.0)"

subsection \<open>The deque of counted centres\<close>

text \<open>
  \<^verbatim>\<open>deque(maxlen=100)\<close>: \<^verbatim>\<open>append\<close> puts the item at the right end and, when the deque
  is then longer than \<^verbatim>\<open>maxlen\<close>, removes the leftmost item.
\<close>

definition maxlen :: nat where
  "maxlen = 100"

definition deque_append :: "'a list \<Rightarrow> 'a \<Rightarrow> 'a list" where
  "deque_append d x = (let ys = d @ [x] in if length ys > maxlen then tl ys else ys)"

subsection \<open>Division\<close>

text \<open>Python's \<^verbatim>\<open>/\<close> raises ZeroDivisionError on a zero divisor.\<close>

definition truediv :: "real \<Rightarrow> real \<Rightarrow> py_error + real" where
  "truediv a b = (if b = 0 then Inl ZeroDivisionError else Inr (a / b))"

subsection \<open>is_box_like_shape\<close>

text \<open>
  Lines 52 to 78. The result is the triple the method returns; a raised exception is
  \<open>Inl\<close>. The aspect ratio is \<^verbatim>\<open>w / h if h > 0 else 0\<close>, and the solidity is computed
  and tested only under \<^verbatim>\<open>if rect_area > 0\<close>.
\<close>

definition aspect_ratio_of :: "int \<Rightarrow> int \<Rightarrow> py_error + real" where
  "aspect_ratio_of w h = (if h > 0 then truediv (of_int w) (of_int h) else Inr 0)"

definition solidity_rejects :: "real \<Rightarrow> int \<Rightarrow> py_error + bool" where
  "solidity_rejects area rect_area =
     (if rect_area > 0 then
        (case truediv area (of_int rect_area) of
           Inl e \<Rightarrow> Inl e
         | Inr solidity \<Rightarrow> Inr (solidity < 0.3))
      else Inr False)"

definition is_box_like_shape ::
  "counter \<Rightarrow> contour \<Rightarrow> py_error + (bool \<times> point option \<times> bbox option)" where
  "is_box_like_shape self c =
     (case boundingRect c of (x, y, w, h) \<Rightarrow>
        let area = contourArea c in
        if area < min_area self \<or> area > max_area self then Inr (False, None, None)
        else
          (case aspect_ratio_of w h of
             Inl e \<Rightarrow> Inl e
           | Inr aspect_ratio \<Rightarrow>
               if \<not> (fst (aspect_ratio_range self) \<le> aspect_ratio
                      \<and> aspect_ratio \<le> snd (aspect_ratio_range self))
               then Inr (False, None, None)
               else
                 (case solidity_rejects area (w * h) of
                    Inl e \<Rightarrow> Inl e
                  | Inr True \<Rightarrow> Inr (False, None, None)
                  | Inr False \<Rightarrow>
                      Inr (True, Some (x + w div 2, y + h div 2), Some (x, y, w, h)))))"

subsection \<open>is_duplicate_object and has_crossed_line\<close>

text \<open>
  Lines 80 to 88: the loop over the deque, oldest entry first, returning at the first
  entry that is nearer than the threshold.
\<close>

fun dup_scan :: "int \<Rightarrow> point \<Rightarrow> point list \<Rightarrow> bool" where
  "dup_scan thr (cx, cy) [] = False"
| "dup_scan thr (cx, cy) ((prev_cx, prev_cy) # rest) =
     (if sqrt (of_int ((cx - prev_cx)\<^sup>2 + (cy - prev_cy)\<^sup>2)) < of_int thr then True
      else dup_scan thr (cx, cy) rest)"

definition is_duplicate_object :: "counter \<Rightarrow> point \<Rightarrow> bool" where
  "is_duplicate_object self center =
     dup_scan (distance_threshold self) center (tracked_objects self)"

text \<open>Lines 90 to 94.\<close>

definition has_crossed_line :: "counter \<Rightarrow> point \<Rightarrow> bool" where
  "has_crossed_line self center =
     (case center of (cx, cy) \<Rightarrow> \<bar>cy - counting_line_y self\<bar> \<le> 10)"

subsection \<open>process_frame\<close>

text \<open>
  Lines 118 to 123, the decision for one accepted centre. The boolean tells whether the
  counting branch ran, the one that ends by printing the new-object message.
\<close>

definition consider_center :: "counter \<Rightarrow> point \<Rightarrow> bool \<times> counter" where
  "consider_center self center =
     (if has_crossed_line self center \<and> \<not> is_duplicate_object self center
      then (True, self\<lparr>object_count := object_count self + 1,
                       tracked_objects := deque_append (tracked_objects self) center\<rparr>)
      else (False, self))"

text \<open>
  Lines 111 to 127, the loop over the contours. The result is the updated object, the
  list \<^verbatim>\<open>detected_objects\<close>, and the decisions of \<open>consider_center\<close> in the order they were made.
  An accepted contour has a centre, and a pair is truthy in Python, so the test
  \<^verbatim>\<open>is_box_like and center\<close> holds exactly when the flag is true and the centre is not
  \<^verbatim>\<open>None\<close>.
\<close>

fun process_contours ::
  "counter \<Rightarrow> contour list \<Rightarrow>
     py_error + (counter \<times> (point \<times> bbox option) list \<times> bool list)" where
  "process_contours self [] = Inr (self, [], [])"
| "process_contours self (c # cs) =
     (case is_box_like_shape self c of
        Inl e \<Rightarrow> Inl e
      | Inr (is_box_like, center, bbox) \<Rightarrow>
          (case center of
             Some ctr \<Rightarrow>
               if is_box_like then
                 (case consider_center self ctr of
                    (counted, self') \<Rightarrow>
                      (case process_contours self' cs of
                         Inl e \<Rightarrow> Inl e
                       | Inr (self'', detected, decisions) \<Rightarrow>
                           Inr (self'', (ctr, bbox) # detected, counted # decisions)))
               else process_contours self cs
           | None \<Rightarrow> process_contours self cs))"

definition process_frame ::
  "counter \<Rightarrow> contour list \<Rightarrow>
     py_error + (counter \<times> (point \<times> bbox option) list \<times> bool list)" where
  "process_frame self contours = process_contours self contours"

subsection \<open>run\<close>

text \<open>Lines 281 and 282, the two assignments made on the key r.\<close>

definition reset :: "counter \<Rightarrow> counter" where
  "reset self = self\<lparr>object_count := 0, tracked_objects := []\<rparr>"

text \<open>
  The main loop, lines 257 to 283. Each element of the input is one iteration: the
  contours of the frame that was read and the value \<^verbatim>\<open>cv2.waitKey(1)\<close> returns after it.
  The end of the list is the frame that could not be read. The key is
  \<^verbatim>\<open>waitKey(1) & 0xFF\<close>; 113 is \<^verbatim>\<open>ord('q')\<close> and 114 is \<^verbatim>\<open>ord('r')\<close>.
\<close>

fun run_loop :: "counter \<Rightarrow> (contour list \<times> int) list \<Rightarrow> py_error + counter" where
  "run_loop self [] = Inr self"
| "run_loop self ((contours, wk) # rest) =
     (case process_frame self contours of
        Inl e \<Rightarrow> Inl e
      | Inr (self', detected, decisions) \<Rightarrow>
          let key = wk AND 0xFF in
          if key = 113 then Inr self'
          else if key = 114 then run_loop (reset self') rest
          else run_loop self' rest)"

text \<open>A sequence of frames processed one after the other, with all their decisions.\<close>

fun process_frames :: "counter \<Rightarrow> contour list list \<Rightarrow> py_error + (counter \<times> bool list)" where
  "process_frames self [] = Inr (self, [])"
| "process_frames self (contours # rest) =
     (case process_frame self contours of
        Inl e \<Rightarrow> Inl e
      | Inr (self', detected, decisions) \<Rightarrow>
          (case process_frames self' rest of
             Inl e \<Rightarrow> Inl e
           | Inr (self'', later) \<Rightarrow> Inr (self'', decisions @ later)))"

subsection \<open>Auxiliary notions for the proofs\<close>

text \<open>Two objects with the same five constructor parameters.\<close>

definition same_config :: "counter \<Rightarrow> counter \<Rightarrow> bool" where
  "same_config a b \<longleftrightarrow>
     counting_line_y a = counting_line_y b \<and> min_area a = min_area b
     \<and> max_area a = max_area b \<and> distance_threshold a = distance_threshold b
     \<and> aspect_ratio_range a = aspect_ratio_range b"

text \<open>
  The blob of the scenarios of the specification: a 50 by 50 bounding box of area 2000
  (aspect ratio 1, solidity 0.8) whose centre is (100, 250).
\<close>

definition scenario_blob :: contour where
  "scenario_blob = \<lparr>boundingRect = (75, 225, 50, 50), contourArea = 2000\<rparr>"

text \<open>
  What OpenCV returns for one contour. The bounding box of a set of pixel positions has
  a width and a height that are not negative; they are 0 for the empty contour, whose
  box is (0, 0, 0, 0), and at least 1 for every other. The area that
  \<^verbatim>\<open>cv2.contourArea\<close> computes is not negative and not larger than the area of that box.
\<close>

definition cv_contour :: "contour \<Rightarrow> bool" where
  "cv_contour c =
     (case boundingRect c of (x, y, w, h) \<Rightarrow>
        0 \<le> w \<and> 0 \<le> h \<and> 0 \<le> contourArea c \<and> contourArea c \<le> of_int (w * h))"

definition empty_contour :: contour where
  "empty_contour = \<lparr>boundingRect = (0, 0, 0, 0), contourArea = 0\<rparr>"

text \<open>Further concrete inputs, used to evaluate the functions.\<close>

definition next_blob :: contour where
  "next_blob = \<lparr>boundingRect = (77, 226, 50, 50), contourArea = 2000\<rparr>"

definition far_blob :: contour where
  "far_blob = \<lparr>boundingRect = (75, 375, 50, 50), contourArea = 2000\<rparr>"

text \<open>
  A row of blobs on the counting line of the default configuration: blob \<open>i\<close> has a
  40 by 40 bounding box of area 1200 and the centre (100 i + 20, 250). The late blob has
  the same size and the centre (65, 250): its bounding box meets no other, it is 45 from
  the centre of blob 0 and 55 from the centre of blob 1.
\<close>

definition blob_at :: "int \<Rightarrow> contour" where
  "blob_at i = \<lparr>boundingRect = (100 * i, 230, 40, 40), contourArea = 1200\<rparr>"

definition late_blob :: contour where
  "late_blob = \<lparr>boundingRect = (45, 230, 40, 40), contourArea = 1200\<rparr>"

definition full_counter :: counter where
  "full_counter = default_counter\<lparr>object_count := 100, tracked_objects := replicate 100 (0, 250)\<rparr>"

definition counted_five :: counter where
  "counted_five = default_counter\<lparr>object_count := 5,
     tracked_objects := [(100, 250), (200, 250), (300, 250), (400, 250), (500, 250)]\<rparr>"

section \<open>Basic facts\<close>

declare process_contours.simps(2) [simp del]

lemma aspect_ratio_of_total:
  "aspect_ratio_of w h = Inr (if h > 0 then of_int w / of_int h else 0)"
  by (simp add: aspect_ratio_of_def truediv_def)

lemma solidity_rejects_total:
  "solidity_rejects area ra = Inr (ra > 0 \<and> area / of_int ra < 0.3)"
  by (simp add: solidity_rejects_def truediv_def)

text \<open>The classifier in closed form, for a contour whose bounding box is known.\<close>

lemma is_box_like_shape_eq:
  assumes "boundingRect c = (x, y, w, h)"
  shows "is_box_like_shape self c =
     (if min_area self \<le> contourArea c \<and> contourArea c \<le> max_area self
         \<and> fst (aspect_ratio_range self) \<le> (if h > 0 then of_int w / of_int h else 0)
         \<and> (if h > 0 then of_int w / of_int h else 0) \<le> snd (aspect_ratio_range self)
         \<and> \<not> (w * h > 0 \<and> contourArea c / of_int (w * h) < 0.3)
      then Inr (True, Some (x + w div 2, y + h div 2), Some (x, y, w, h))
      else Inr (False, None, None))"
  using assms
  by (auto simp add: is_box_like_shape_def aspect_ratio_of_total solidity_rejects_total Let_def
      simp del: of_int_mult)

lemma is_box_like_shape_cases:
  obtains (accepted) p bb where "is_box_like_shape self c = Inr (True, Some p, Some bb)"
  | (rejected) "is_box_like_shape self c = Inr (False, None, None)"
proof -
  obtain x y w h where b: "boundingRect c = (x, y, w, h)"
    by (cases "boundingRect c") auto
  show thesis
  proof (cases "is_box_like_shape self c = Inr (False, None, None)")
    case True
    then show thesis by (rule rejected)
  next
    case False
    then have "is_box_like_shape self c
        = Inr (True, Some (x + w div 2, y + h div 2), Some (x, y, w, h))"
      unfolding is_box_like_shape_eq [OF b] by (simp split: if_splits)
    then show thesis by (rule accepted)
  qed
qed

lemma same_config_refl: "same_config a a"
  by (simp add: same_config_def)

lemma same_config_trans: "same_config a b \<Longrightarrow> same_config b c \<Longrightarrow> same_config a c"
  by (simp add: same_config_def)

lemma same_config_reset: "same_config a (reset a)"
  by (simp add: same_config_def reset_def)

lemma is_box_like_shape_config:
  "same_config a b \<Longrightarrow> is_box_like_shape a c = is_box_like_shape b c"
  by (cases "boundingRect c") (simp add: is_box_like_shape_eq same_config_def)

text \<open>The comparison of the square root with the threshold, without the root.\<close>

lemma sqrt_less_iff:
  fixes x t :: real
  assumes "0 \<le> x"
  shows "sqrt x < t \<longleftrightarrow> 0 < t \<and> x < t\<^sup>2"
proof (cases "0 < t")
  case True
  then have "sqrt (t\<^sup>2) = t" by simp
  then have "sqrt x < t \<longleftrightarrow> sqrt x < sqrt (t\<^sup>2)" by simp
  also have "\<dots> \<longleftrightarrow> x < t\<^sup>2" by (rule real_sqrt_less_iff)
  finally show ?thesis using True by simp
next
  case False
  have "0 \<le> sqrt x" using assms by simp
  then have "\<not> sqrt x < t" using False by linarith
  then show ?thesis using False by simp
qed

lemma sqrt_int_less_iff:
  "sqrt (of_int ((a::int)\<^sup>2 + b\<^sup>2)) < of_int k \<longleftrightarrow> 0 < k \<and> a\<^sup>2 + b\<^sup>2 < k\<^sup>2"
proof -
  have "(0::real) \<le> of_int (a\<^sup>2 + b\<^sup>2)" by simp
  then have "sqrt (of_int (a\<^sup>2 + b\<^sup>2)) < of_int k
      \<longleftrightarrow> (0::real) < of_int k \<and> (of_int (a\<^sup>2 + b\<^sup>2) :: real) < (of_int k)\<^sup>2"
    by (rule sqrt_less_iff)
  also have "\<dots> \<longleftrightarrow> 0 < k \<and> a\<^sup>2 + b\<^sup>2 < k\<^sup>2"
    by (simp only: of_int_0_less_iff of_int_power [symmetric] of_int_less_iff)
  finally show ?thesis .
qed


lemma dup_scan_iff:
  "dup_scan thr (cx, cy) ps \<longleftrightarrow>
     (\<exists>(px, py) \<in> set ps. sqrt (of_int ((cx - px)\<^sup>2 + (cy - py)\<^sup>2)) < of_int thr)"
  by (induction ps) auto

lemma dup_scan_code [code]:
  "dup_scan thr (cx, cy) [] = False"
  "dup_scan thr (cx, cy) ((prev_cx, prev_cy) # rest) =
     (if 0 < thr \<and> (cx - prev_cx)\<^sup>2 + (cy - prev_cy)\<^sup>2 < thr\<^sup>2 then True
      else dup_scan thr (cx, cy) rest)"
  by (simp_all only: dup_scan.simps sqrt_int_less_iff)

lemma deque_append_eq:
  "deque_append d x = (if length d < 100 then d @ [x] else tl d @ [x])"
  by (cases d) (auto simp: deque_append_def maxlen_def Let_def)

subsection \<open>The counting loop\<close>

lemma consider_center_same_config:
  "consider_center self p = (b, s') \<Longrightarrow> same_config self s'"
  by (auto simp add: consider_center_def same_config_def split: if_splits)

lemma consider_center_count:
  "consider_center self p = (b, s') \<Longrightarrow>
     object_count s' = object_count self + (if b then 1 else 0)"
  by (auto simp add: consider_center_def split: if_splits)

lemma consider_center_length:
  "consider_center self p = (b, s') \<Longrightarrow> length (tracked_objects self) \<le> 100 \<Longrightarrow>
     length (tracked_objects s') \<le> 100"
  by (auto simp add: consider_center_def deque_append_eq split: if_splits)

lemma process_contours_accept:
  "is_box_like_shape self c = Inr (True, Some p, bb) \<Longrightarrow>
   process_contours self (c # cs) =
     (case consider_center self p of
        (counted, s1) \<Rightarrow>
          (case process_contours s1 cs of
             Inl e \<Rightarrow> Inl e
           | Inr (s2, det, ds) \<Rightarrow> Inr (s2, (p, bb) # det, counted # ds)))"
  by (simp add: process_contours.simps(2))

lemma process_contours_reject:
  "is_box_like_shape self c = Inr (False, None, None) \<Longrightarrow>
   process_contours self (c # cs) = process_contours self cs"
  by (simp add: process_contours.simps(2))

lemma process_contours_invariants:
  "\<exists>s' det ds. process_contours self cs = Inr (s', det, ds) \<and> same_config self s'
     \<and> object_count s' = object_count self + int (count_list ds True)
     \<and> (length (tracked_objects self) \<le> 100 \<longrightarrow> length (tracked_objects s') \<le> 100)"
proof (induction cs arbitrary: self)
  case Nil
  show ?case by (simp add: same_config_refl)
next
  case (Cons c cs)
  show ?case
  proof (cases rule: is_box_like_shape_cases [of self c])
    case (accepted p bb)
    obtain b s1 where s1: "consider_center self p = (b, s1)"
      by (cases "consider_center self p") auto
    from Cons.IH [of s1] obtain s2 det ds where
      r: "process_contours s1 cs = Inr (s2, det, ds)" and c: "same_config s1 s2"
      and n: "object_count s2 = object_count s1 + int (count_list ds True)"
      and l: "length (tracked_objects s1) \<le> 100 \<longrightarrow> length (tracked_objects s2) \<le> 100"
      by blast
    have "process_contours self (c # cs) = Inr (s2, (p, Some bb) # det, b # ds)"
      by (simp add: process_contours_accept [OF accepted] s1 r)
    moreover have "same_config self s2"
      using consider_center_same_config [OF s1] c by (rule same_config_trans)
    moreover have "object_count s2 = object_count self + int (count_list (b # ds) True)"
      using n consider_center_count [OF s1] by simp
    moreover have "length (tracked_objects self) \<le> 100 \<longrightarrow> length (tracked_objects s2) \<le> 100"
      using l consider_center_length [OF s1] by blast
    ultimately show ?thesis by blast
  next
    case rejected
    then show ?thesis
      using Cons.IH [of self] by (simp only: process_contours_reject)
  qed
qed

lemma process_frames_invariants:
  "\<exists>s' ds. process_frames self fs = Inr (s', ds) \<and> same_config self s'
     \<and> object_count s' = object_count self + int (count_list ds True)
     \<and> (length (tracked_objects self) \<le> 100 \<longrightarrow> length (tracked_objects s') \<le> 100)"
proof (induction fs arbitrary: self)
  case Nil
  show ?case by (simp add: same_config_refl)
next
  case (Cons f fs)
  from process_contours_invariants [of self f] obtain s1 det ds1 where
    r1: "process_frame self f = Inr (s1, det, ds1)" and c1: "same_config self s1"
    and n1: "object_count s1 = object_count self + int (count_list ds1 True)"
    and l1: "length (tracked_objects self) \<le> 100 \<longrightarrow> length (tracked_objects s1) \<le> 100"
    unfolding process_frame_def by blast
  from Cons.IH [of s1] obtain s2 ds2 where
    r2: "process_frames s1 fs = Inr (s2, ds2)" and c2: "same_config s1 s2"
    and n2: "object_count s2 = object_count s1 + int (count_list ds2 True)"
    and l2: "length (tracked_objects s1) \<le> 100 \<longrightarrow> length (tracked_objects s2) \<le> 100"
    by blast
  have "process_frames self (f # fs) = Inr (s2, ds1 @ ds2)"
    by (simp add: r1 r2)
  moreover have "same_config self s2"
    using c1 c2 by (rule same_config_trans)
  moreover have "object_count s2 = object_count self + int (count_list (ds1 @ ds2) True)"
    using n1 n2 by simp
  moreover have "length (tracked_objects self) \<le> 100 \<longrightarrow> length (tracked_objects s2) \<le> 100"
    using l1 l2 by blast
  ultimately show ?case by blast
qed

lemma run_loop_invariants:
  "length (tracked_objects self) \<le> 100 \<Longrightarrow>
   \<exists>s'. run_loop self evs = Inr s' \<and> same_config self s' \<and> length (tracked_objects s') \<le> 100"
proof (induction evs arbitrary: self)
  case Nil
  then show ?case by (simp add: same_config_refl)
next
  case (Cons ev evs)
  obtain f wk where ev: "ev = (f, wk)" by (cases ev) auto
  from process_contours_invariants [of self f] Cons.prems obtain s1 det ds1 where
    r1: "process_frame self f = Inr (s1, det, ds1)" and c1: "same_config self s1"
    and l1: "length (tracked_objects s1) \<le> 100"
    unfolding process_frame_def by blast
  show ?case
  proof (cases "wk AND 0xFF = 113")
    case True
    then show ?thesis using r1 c1 l1 by (simp add: ev)
  next
    case q: False
    show ?thesis
    proof (cases "wk AND 0xFF = 114")
      case True
      have "length (tracked_objects (reset s1)) \<le> 100" by (simp add: reset_def)
      from Cons.IH [OF this] obtain s2 where
        "run_loop (reset s1) evs = Inr s2" "same_config (reset s1) s2"
        "length (tracked_objects s2) \<le> 100" by blast
      moreover have "same_config self (reset s1)"
        using c1 same_config_reset by (rule same_config_trans)
      ultimately show ?thesis
        using r1 q True by (auto simp add: ev intro: same_config_trans)
    next
      case False
      from Cons.IH [OF l1] obtain s2 where
        "run_loop s1 evs = Inr s2" "same_config s1 s2"
        "length (tracked_objects s2) \<le> 100" by blast
      then show ?thesis
        using r1 q False c1 by (auto simp add: ev intro: same_config_trans)
    qed
  qed
qed

lemma run_loop_no_keys:
  "\<forall>(f, wk) \<in> set evs. wk AND 0xFF \<noteq> 113 \<and> wk AND 0xFF \<noteq> 114 \<Longrightarrow>
   run_loop self evs = map_sum id fst (process_frames self (map fst evs))"
proof (induction evs arbitrary: self)
  case Nil
  show ?case by simp
next
  case (Cons ev evs)
  obtain f wk where ev: "ev = (f, wk)" by (cases ev) auto
  from process_contours_invariants [of self f] obtain s1 det ds1 where
    r1: "process_frame self f = Inr (s1, det, ds1)"
    unfolding process_frame_def by blast
  have "run_loop s1 evs = map_sum id fst (process_frames s1 (map fst evs))"
    using Cons.prems by (intro Cons.IH) simp
  then show ?case
    using Cons.prems r1 by (auto simp add: ev split: sum.splits)
qed

lemma process_contours_append:
  "process_contours s (xs @ ys) =
     (case process_contours s xs of
        Inl e \<Rightarrow> Inl e
      | Inr (s1, d1, ds1) \<Rightarrow>
          (case process_contours s1 ys of
             Inl e \<Rightarrow> Inl e
           | Inr (s2, d2, ds2) \<Rightarrow> Inr (s2, d1 @ d2, ds1 @ ds2)))"
proof (induction xs arbitrary: s)
  case Nil
  show ?case by (simp split: sum.splits)
next
  case (Cons c cs)
  show ?case
  proof (cases rule: is_box_like_shape_cases [of s c])
    case (accepted p bb)
    obtain b s1 where s1: "consider_center s p = (b, s1)"
      by (cases "consider_center s p") auto
    show ?thesis
      by (simp add: process_contours_accept [OF accepted] s1 Cons.IH split: sum.splits)
  next
    case rejected
    then show ?thesis
      by (simp add: process_contours_reject Cons.IH)
  qed
qed

lemma consider_center_keeps:
  assumes "consider_center s q = (b, s')" and "tracked_objects s = pre @ p # suf"
    and "length suf + (if b then 1 else 0) < 100"
  shows "\<exists>pre'. tracked_objects s' = pre' @ p # suf @ (if b then [q] else [])"
proof (cases b)
  case False
  then have "s' = s" using assms(1) by (auto simp add: consider_center_def split: if_splits)
  then show ?thesis using False assms(2) by simp
next
  case True
  then have t: "tracked_objects s' = deque_append (tracked_objects s) q"
    using assms(1) by (auto simp add: consider_center_def split: if_splits)
  show ?thesis
  proof (cases pre)
    case Nil
    then have "length (tracked_objects s) < 100" using assms(2,3) True by simp
    then show ?thesis using t True assms(2) by (simp add: deque_append_eq)
  next
    case (Cons a pre1)
    then show ?thesis using t True assms(2) by (simp add: deque_append_eq)
  qed
qed

lemma process_contours_keeps:
  "process_contours s cs = Inr (s', det, ds) \<Longrightarrow> tracked_objects s = pre @ p # suf \<Longrightarrow>
   length suf + count_list ds True < 100 \<Longrightarrow> p \<in> set (tracked_objects s')"
proof (induction cs arbitrary: s pre suf det ds)
  case Nil
  then show ?case by simp
next
  case (Cons c cs)
  show ?case
  proof (cases rule: is_box_like_shape_cases [of s c])
    case (accepted q bb)
    obtain b s1 where s1: "consider_center s q = (b, s1)"
      by (cases "consider_center s q") auto
    from process_contours_invariants [of s1 cs] obtain s2 det2 ds2 where
      r: "process_contours s1 cs = Inr (s2, det2, ds2)" by blast
    have e: "s' = s2" "ds = b # ds2"
      using Cons.prems(1) by (simp_all add: process_contours_accept [OF accepted] s1 r)
    have "length suf + (if b then 1 else 0) < 100"
      using Cons.prems(3) e by (simp split: if_splits)
    from consider_center_keeps [OF s1 Cons.prems(2) this] obtain pre' where
      k: "tracked_objects s1 = pre' @ p # suf @ (if b then [q] else [])" by blast
    have "length (suf @ (if b then [q] else [])) + count_list ds2 True < 100"
      using Cons.prems(3) e by (simp split: if_splits)
    moreover have "process_contours s1 cs = Inr (s', det2, ds2)"
      using r e by simp
    ultimately show ?thesis using k by (intro Cons.IH)
  next
    case rejected
    then show ?thesis
      using Cons.prems Cons.IH [of s det ds pre suf] by (simp add: process_contours_reject)
  qed
qed

lemma consider_center_last:
  "consider_center s p = (True, s1) \<Longrightarrow> \<exists>pre. tracked_objects s1 = pre @ [p]"
  by (auto simp add: consider_center_def deque_append_eq split: if_splits)

lemmas eval_defs =
  process_frame_def process_contours.simps(2) is_box_like_shape_def aspect_ratio_of_def
  solidity_rejects_def truediv_def consider_center_def has_crossed_line_def
  is_duplicate_object_def deque_append_def maxlen_def reset_def
  default_counter_def init_def scenario_blob_def next_blob_def far_blob_def Let_def

section \<open>The shape classifier\<close>

text \<open>
  C2. With the default configuration (area bounds 1000 and 50000, aspect ratio range
  0.3 to 3.0), every contour that \<open>is_box_like_shape\<close> accepts has its area within the
  bounds, a bounding box of positive height and width whose ratio width/height lies in
  the range, and a solidity area/(width*height) of at least 0.3.
\<close>

theorem accepted_shape_bounds:
  assumes "min_area self = 1000" and "max_area self = 50000"
    and "aspect_ratio_range self = (0.3, 3.0)"
    and "boundingRect c = (x, y, w, h)"
    and "is_box_like_shape self c = Inr (True, center, bbox)"
  shows "1000 \<le> contourArea c \<and> contourArea c \<le> 50000
    \<and> 0 < h \<and> 0.3 \<le> real_of_int w / real_of_int h
    \<and> real_of_int w / real_of_int h \<le> 3.0
    \<and> 0 < w * h \<and> 0.3 \<le> contourArea c / real_of_int (w * h)"
proof -
  have acc: "min_area self \<le> contourArea c \<and> contourArea c \<le> max_area self
         \<and> fst (aspect_ratio_range self) \<le> (if h > 0 then of_int w / of_int h else 0)
         \<and> (if h > 0 then of_int w / of_int h else 0) \<le> snd (aspect_ratio_range self)
         \<and> \<not> (w * h > 0 \<and> contourArea c / of_int (w * h) < 0.3)"
    using assms(5) unfolding is_box_like_shape_eq [OF assms(4)]
    by (simp split: if_splits)
  then have h: "0 < h" using assms(3) by (simp split: if_splits)
  with acc assms(3) have r: "0.3 \<le> real_of_int w / real_of_int h" by simp
  have "0 < w"
  proof (rule ccontr)
    assume "\<not> 0 < w"
    then have "real_of_int w / real_of_int h \<le> 0" using h by (simp add: divide_nonpos_pos)
    with r show False by linarith
  qed
  with h have "0 < w * h" by simp
  with acc h assms show ?thesis by (simp del: of_int_mult)
qed

theorem accepted_shape_bounds_witness:
  "is_box_like_shape default_counter scenario_blob
     = Inr (True, Some (100, 250), Some (75, 225, 50, 50))
   \<and> 1000 \<le> contourArea scenario_blob \<and> contourArea scenario_blob \<le> 50000
   \<and> 0.3 \<le> real_of_int 50 / real_of_int 50 \<and> real_of_int 50 / real_of_int 50 \<le> 3.0
   \<and> 0.3 \<le> contourArea scenario_blob / real_of_int (50 * 50)"
proof -
  have b: "boundingRect scenario_blob = (75, 225, 50, 50)"
    by (simp add: scenario_blob_def)
  have a: "is_box_like_shape default_counter scenario_blob
     = Inr (True, Some (100, 250), Some (75, 225, 50, 50))"
    by (simp add: is_box_like_shape_def aspect_ratio_of_def solidity_rejects_def truediv_def
        default_counter_def init_def scenario_blob_def)
  have "min_area default_counter = 1000" "max_area default_counter = 50000"
    "aspect_ratio_range default_counter = (0.3, 3.0)"
    by (simp_all add: default_counter_def init_def)
  from accepted_shape_bounds [OF this b a] a show ?thesis by simp
qed

text \<open>
  C8, as stated, fails at the one contour for which OpenCV returns a bounding box of
  height 0, the empty contour (box (0, 0, 0, 0), area 0): with a minimum area of 0 and
  the aspect ratio range (0, 3) it is accepted, because the area test passes, the aspect
  ratio is taken to be 0 and the solidity test is skipped.
\<close>

theorem empty_contour_accepted:
  "cv_contour empty_contour
   \<and> is_box_like_shape (init 250 0 50000 50 (0, 3)) empty_contour
       = Inr (True, Some (0, 0), Some (0, 0, 0, 0))"
  by (simp add: cv_contour_def empty_contour_def is_box_like_shape_def aspect_ratio_of_def
      solidity_rejects_def init_def)

text \<open>
  C8, amended. A contour as OpenCV measures it whose bounding box has height 0 (or
  width 0) has area 0 and aspect ratio 0. It is accepted exactly when 0 lies within the
  area bounds and within the aspect ratio range, and rejected otherwise. So with a
  positive minimum area, as the default 1000, it is rejected whatever the configured
  aspect ratio range. The rejection is the ordinary rejected result, not an error.
\<close>

theorem zero_height_rejected:
  assumes "cv_contour c" and "boundingRect c = (x, y, w, h)" and "h = 0 \<or> w = 0"
  shows "is_box_like_shape self c =
      (if min_area self \<le> 0 \<and> 0 \<le> max_area self
          \<and> fst (aspect_ratio_range self) \<le> 0 \<and> 0 \<le> snd (aspect_ratio_range self)
       then Inr (True, Some (x + w div 2, y + h div 2), Some (x, y, w, h))
       else Inr (False, None, None))
    \<and> (0 < min_area self \<longrightarrow> is_box_like_shape self c = Inr (False, None, None))"
proof -
  have z: "w * h = 0"
    using assms(3) by auto
  have "0 \<le> contourArea c \<and> contourArea c \<le> real_of_int (w * h)"
    using assms(1) by (simp add: cv_contour_def assms(2) del: of_int_mult)
  then have a: "contourArea c = 0"
    unfolding z by simp
  have r: "(if 0 < h then real_of_int w / real_of_int h else 0) = 0"
    using assms(3) by auto
  have n: "\<not> 0 < w * h"
    unfolding z by simp
  have "is_box_like_shape self c =
      (if min_area self \<le> 0 \<and> 0 \<le> max_area self
          \<and> fst (aspect_ratio_range self) \<le> 0 \<and> 0 \<le> snd (aspect_ratio_range self)
       then Inr (True, Some (x + w div 2, y + h div 2), Some (x, y, w, h))
       else Inr (False, None, None))"
    unfolding is_box_like_shape_eq [OF assms(2)] r a using n by simp
  then show ?thesis by simp
qed

theorem zero_height_rejected_witness:
  "cv_contour empty_contour
   \<and> is_box_like_shape default_counter empty_contour = Inr (False, None, None)
   \<and> is_box_like_shape (init 250 1000 50000 50 (0, 3)) empty_contour
       = Inr (False, None, None)"
proof -
  have c: "cv_contour empty_contour"
    by (simp add: cv_contour_def empty_contour_def)
  have b: "boundingRect empty_contour = (0, 0, 0, 0)"
    by (simp add: empty_contour_def)
  have h: "(0::int) = 0 \<or> (0::int) = 0" by simp
  from zero_height_rejected [OF c b h, of default_counter]
  have "is_box_like_shape default_counter empty_contour = Inr (False, None, None)"
    by (simp add: default_counter_def init_def)
  moreover from zero_height_rejected [OF c b h, of "init 250 1000 50000 50 (0, 3)"]
  have "is_box_like_shape (init 250 1000 50000 50 (0, 3)) empty_contour
      = Inr (False, None, None)"
    by (simp add: init_def)
  ultimately show ?thesis using c by simp
qed

text \<open>
  C10. \<open>is_box_like_shape\<close> returns a result for every contour and every configuration:
  no division by zero is raised. With height 0 the aspect ratio is 0, with a bounding
  box of area 0 the solidity test rejects nothing, and a contour with such a bounding box
  is accepted exactly when its area is within the bounds and 0 lies in the aspect ratio
  range.
\<close>

theorem is_box_like_shape_total:
  "(\<exists>r. is_box_like_shape self c = Inr r)
   \<and> aspect_ratio_of w 0 = Inr 0
   \<and> solidity_rejects area 0 = Inr False
   \<and> (boundingRect c = (x, y, w, h) \<and> w * h = 0 \<longrightarrow>
        is_box_like_shape self c =
          (if min_area self \<le> contourArea c \<and> contourArea c \<le> max_area self
              \<and> fst (aspect_ratio_range self) \<le> 0 \<and> 0 \<le> snd (aspect_ratio_range self)
           then Inr (True, Some (x + w div 2, y + h div 2), Some (x, y, w, h))
           else Inr (False, None, None)))"
proof -
  obtain x' y' w' h' where b: "boundingRect c = (x', y', w', h')"
    by (cases "boundingRect c") auto
  have "\<exists>r. is_box_like_shape self c = Inr r"
    unfolding is_box_like_shape_eq [OF b] by auto
  moreover have "aspect_ratio_of w 0 = Inr 0"
    by (simp add: aspect_ratio_of_def)
  moreover have "solidity_rejects area 0 = Inr False"
    by (simp add: solidity_rejects_def)
  moreover have "is_box_like_shape self c =
          (if min_area self \<le> contourArea c \<and> contourArea c \<le> max_area self
              \<and> fst (aspect_ratio_range self) \<le> 0 \<and> 0 \<le> snd (aspect_ratio_range self)
           then Inr (True, Some (x + w div 2, y + h div 2), Some (x, y, w, h))
           else Inr (False, None, None))"
    if "boundingRect c = (x, y, w, h)" "w * h = 0"
  proof -
    have z: "(if 0 < h then real_of_int w / real_of_int h else 0) = 0"
      using that(2) by auto
    have n: "\<not> 0 < w * h"
      unfolding that(2) by simp
    show ?thesis
      unfolding is_box_like_shape_eq [OF that(1)] z using n by simp
  qed
  ultimately show ?thesis by blast
qed

theorem is_box_like_shape_total_witness:
  "is_box_like_shape (init 250 1000 50000 50 (0, 3))
      \<lparr>boundingRect = (10, 20, 0, 7), contourArea = 1500\<rparr>
     = Inr (True, Some (10, 23), Some (10, 20, 0, 7))
   \<and> is_box_like_shape default_counter
      \<lparr>boundingRect = (10, 20, 0, 7), contourArea = 1500\<rparr>
     = Inr (False, None, None)"
  using is_box_like_shape_total
    [where self = "init 250 1000 50000 50 (0, 3)"
       and c = "\<lparr>boundingRect = (10, 20, 0, 7), contourArea = 1500\<rparr>"
       and x = 10 and y = 20 and w = 0 and h = 7]
    is_box_like_shape_total
    [where self = default_counter
       and c = "\<lparr>boundingRect = (10, 20, 0, 7), contourArea = 1500\<rparr>"
       and x = 10 and y = 20 and w = 0 and h = 7]
  by (simp add: default_counter_def init_def)

section \<open>The duplicate test and the line test\<close>



text \<open>
  C6. \<open>has_crossed_line\<close> holds exactly when the y coordinate of the centre is within
  10 of the counting line, both ends included. The x coordinate plays no part, and
  neither does any field of the object other than \<open>counting_line_y\<close>: the tolerance is
  the constant 10.
\<close>

theorem has_crossed_line_iff:
  "(has_crossed_line self (cx, cy) \<longleftrightarrow> \<bar>cy - counting_line_y self\<bar> \<le> 10)
   \<and> (has_crossed_line self (cx, cy) \<longleftrightarrow>
        counting_line_y self - 10 \<le> cy \<and> cy \<le> counting_line_y self + 10)
   \<and> has_crossed_line self (cx', cy) = has_crossed_line self (cx, cy)
   \<and> has_crossed_line
         (self\<lparr>min_area := a, max_area := b, distance_threshold := t,
               aspect_ratio_range := r, object_count := n, tracked_objects := hs\<rparr>) (cx, cy)
       = has_crossed_line self (cx, cy)"
  by (auto simp add: has_crossed_line_def)

section \<open>The counting decision\<close>

text \<open>
  C1. For a centre that is at the line and is no duplicate, \<open>consider_center\<close> reports
  True, adds exactly 1 to \<open>object_count\<close> and appends the centre to the history, dropping
  the oldest entry when the history already holds 100. In every other case it reports
  False and returns the object unchanged.
\<close>

theorem consider_center_decision:
  "(has_crossed_line self center \<and> \<not> is_duplicate_object self center \<longrightarrow>
      consider_center self center =
        (True, self\<lparr>object_count := object_count self + 1,
                    tracked_objects :=
                      (if length (tracked_objects self) < 100 then tracked_objects self
                       else tl (tracked_objects self)) @ [center]\<rparr>))
   \<and> (\<not> (has_crossed_line self center \<and> \<not> is_duplicate_object self center) \<longrightarrow>
      consider_center self center = (False, self))"
  by (simp add: consider_center_def deque_append_eq)

theorem consider_center_decision_witness:
  "consider_center default_counter (100, 250) =
     (True, default_counter\<lparr>object_count := 1, tracked_objects := [(100, 250)]\<rparr>)
   \<and> consider_center default_counter (100, 400) = (False, default_counter)"
  using consider_center_decision [of default_counter "(100, 250)"]
    consider_center_decision [of default_counter "(100, 400)"]
  by (simp add: has_crossed_line_def is_duplicate_object_def default_counter_def init_def)

text \<open>
  C9, as stated, fails for a candidate that comes late enough in the frame. The frame
  has 101 blobs on the line, 100 pixels apart, followed by the late blob, whose centre
  is 45 from the centre of the first blob, less than the threshold 50. All 101 are
  counted; the 101st append evicts the centre of the first blob from the history, so the
  late blob is counted as well: all 102 decisions are True.
\<close>

theorem late_duplicate_counted:
  "\<not> isl (process_frame default_counter (map blob_at [0..100] @ [late_blob]))
   \<and> snd (snd (projr (process_frame default_counter (map blob_at [0..100] @ [late_blob]))))
       = replicate 102 True
   \<and> process_frame default_counter [blob_at 0, late_blob]
       = Inr (default_counter\<lparr>object_count := 1, tracked_objects := [(20, 250)]\<rparr>,
              [((20, 250), Some (0, 230, 40, 40)), ((65, 250), Some (45, 230, 40, 40))],
              [True, False])"
  by code_simp

text \<open>
  C9, amended. If a candidate of a frame is counted, a later candidate of the same frame
  whose centre is strictly nearer than \<open>distance_threshold\<close> (an integer, as the default
  50) to it is not counted and leaves the object unchanged, provided fewer than 100
  candidates were counted between the two. Nothing is assumed about the history at the
  start of the frame.
\<close>

theorem same_frame_duplicate_suppressed:
  assumes first: "is_box_like_shape self c = Inr (True, Some (cx, cy), bb)"
    and counted: "consider_center self (cx, cy) = (True, s')"
    and between: "process_contours s' mid = Inr (s'', det, ds)"
    and few: "count_list ds True < 100"
    and later: "is_box_like_shape self c' = Inr (True, Some (cx', cy'), bb')"
    and near: "sqrt (of_int ((cx' - cx)\<^sup>2 + (cy' - cy)\<^sup>2)) < of_int (distance_threshold self)"
  shows "\<exists>t det' ds'. process_contours s'' rest = Inr (t, det', ds')
    \<and> process_frame self (c # mid @ c' # rest)
        = Inr (t, ((cx, cy), bb) # det @ ((cx', cy'), bb') # det',
               True # ds @ False # ds')"
proof -
  from consider_center_last [OF counted] obtain pre where
    "tracked_objects s' = pre @ (cx, cy) # []" by auto
  from process_contours_keeps [OF between this] few
  have mem: "(cx, cy) \<in> set (tracked_objects s'')" by simp
  have cfg: "same_config self s''"
    using consider_center_same_config [OF counted]
      process_contours_invariants [of s' mid] between
    by (auto intro: same_config_trans)
  then have thr: "distance_threshold s'' = distance_threshold self"
    by (simp add: same_config_def)
  have "is_duplicate_object s'' (cx', cy')"
    unfolding is_duplicate_object_def dup_scan_iff thr using mem near by blast
  then have dup: "consider_center s'' (cx', cy') = (False, s'')"
    by (simp add: consider_center_def)
  have acc: "is_box_like_shape s'' c' = Inr (True, Some (cx', cy'), bb')"
    using later is_box_like_shape_config [OF cfg, of c'] by simp
  from process_contours_invariants [of s'' rest] obtain t det' ds' where
    r: "process_contours s'' rest = Inr (t, det', ds')" by blast
  have "process_contours s'' (c' # rest)
      = Inr (t, ((cx', cy'), bb') # det', False # ds')"
    by (simp add: process_contours_accept [OF acc] dup r)
  then have "process_contours s' (mid @ c' # rest)
      = Inr (t, det @ ((cx', cy'), bb') # det', ds @ False # ds')"
    by (simp add: process_contours_append between)
  then have "process_frame self (c # mid @ c' # rest)
        = Inr (t, ((cx, cy), bb) # det @ ((cx', cy'), bb') # det',
               True # ds @ False # ds')"
    by (simp add: process_frame_def process_contours_accept [OF first] counted)
  with r show ?thesis by blast
qed

theorem same_frame_duplicate_suppressed_witness:
  "process_frame default_counter [scenario_blob, far_blob, next_blob]
     = Inr (default_counter\<lparr>object_count := 1, tracked_objects := [(100, 250)]\<rparr>,
            [((100, 250), Some (75, 225, 50, 50)), ((100, 400), Some (75, 375, 50, 50)),
             ((102, 251), Some (77, 226, 50, 50))],
            [True, False, False])"
proof -
  let ?s = "default_counter\<lparr>object_count := 1, tracked_objects := [(100, 250)]\<rparr>"
  have first: "is_box_like_shape default_counter scenario_blob
      = Inr (True, Some (100, 250), Some (75, 225, 50, 50))"
    by (simp add: is_box_like_shape_def aspect_ratio_of_def solidity_rejects_def truediv_def
        default_counter_def init_def scenario_blob_def)
  have counted: "consider_center default_counter (100, 250) = (True, ?s)"
    by (simp add: consider_center_def has_crossed_line_def is_duplicate_object_def
        deque_append_def maxlen_def default_counter_def init_def)
  have between: "process_contours ?s [far_blob]
      = Inr (?s, [((100, 400), Some (75, 375, 50, 50))], [False])"
    by (simp add: process_contours.simps(2) is_box_like_shape_def aspect_ratio_of_def
        solidity_rejects_def truediv_def consider_center_def has_crossed_line_def
        default_counter_def init_def far_blob_def)
  have few: "count_list [False] True < 100" by simp
  have later: "is_box_like_shape default_counter next_blob
      = Inr (True, Some (102, 251), Some (77, 226, 50, 50))"
    by (simp add: is_box_like_shape_def aspect_ratio_of_def solidity_rejects_def truediv_def
        default_counter_def init_def next_blob_def)
  have near: "sqrt (of_int ((102 - 100)\<^sup>2 + (251 - 250)\<^sup>2))
      < of_int (distance_threshold default_counter)"
    by (simp add: sqrt_less_iff default_counter_def init_def)
  from same_frame_duplicate_suppressed [OF first counted between few later near, of "[]"]
  show ?thesis by simp
qed

section \<open>Counts and history over frames\<close>

text \<open>
  C3. Over any sequence of frames, \<open>object_count\<close> grows by the number of True
  decisions made in those frames, so from a new object it equals that number, and it
  never decreases. One iteration of the main loop leaves the count at least as large as
  before, unless the key is r, in which case it is 0.
\<close>

theorem total_count_equals_decisions:
  "(\<exists>s' ds. process_frames (init line_y mn mx thr rng) frames = Inr (s', ds)
       \<and> object_count s' = int (count_list ds True))
   \<and> (\<exists>s' ds. process_frames self frames = Inr (s', ds)
       \<and> object_count s' = object_count self + int (count_list ds True)
       \<and> object_count self \<le> object_count s')
   \<and> (\<exists>s'. run_loop self [(contours, wk)] = Inr s'
       \<and> (if wk AND 0xFF = 114 then object_count s' = 0
          else object_count self \<le> object_count s'))"
proof -
  from process_frames_invariants [of "init line_y mn mx thr rng" frames]
  have a: "\<exists>s' ds. process_frames (init line_y mn mx thr rng) frames = Inr (s', ds)
       \<and> object_count s' = int (count_list ds True)"
    by (auto simp add: init_def)
  from process_frames_invariants [of self frames]
  have b: "\<exists>s' ds. process_frames self frames = Inr (s', ds)
       \<and> object_count s' = object_count self + int (count_list ds True)
       \<and> object_count self \<le> object_count s'"
    by auto
  from process_contours_invariants [of self contours] obtain s1 det ds where
    r: "process_frame self contours = Inr (s1, det, ds)"
    and n: "object_count s1 = object_count self + int (count_list ds True)"
    unfolding process_frame_def by blast
  have c: "\<exists>s'. run_loop self [(contours, wk)] = Inr s'
       \<and> (if wk AND 0xFF = 114 then object_count s' = 0
          else object_count self \<le> object_count s')"
    using r n
    by (cases "wk AND 0xFF = 114"; cases "wk AND 0xFF = 113") (simp_all add: reset_def)
  from a b c show ?thesis by blast
qed

theorem total_count_equals_decisions_witness:
  "process_frames default_counter [[scenario_blob], [next_blob], [far_blob]]
     = Inr (default_counter\<lparr>object_count := 1, tracked_objects := [(100, 250)]\<rparr>,
            [True, False, False])
   \<and> run_loop default_counter [([scenario_blob], 114)] = Inr default_counter
   \<and> run_loop default_counter [([scenario_blob], -1)]
     = Inr (default_counter\<lparr>object_count := 1, tracked_objects := [(100, 250)]\<rparr>)"
  using total_count_equals_decisions
    [of 250 1000 50000 50 "(0.3, 3.0)" "[[scenario_blob], [next_blob], [far_blob]]"
        default_counter "[scenario_blob]" 114]
  by (simp add: eval_defs sqrt_less_iff)

text \<open>
  C4. A history of at most 100 entries has at most 100 entries after any frame and after
  any run of the main loop, resets included; a new object starts with an empty history
  and a reset empties it. An append to a history of exactly 100 entries drops the oldest
  entry and keeps the length at 100; an append to a shorter one drops nothing.
\<close>

theorem history_bounded:
  "(length (tracked_objects self) \<le> 100 \<longrightarrow>
      (\<exists>s' det ds. process_frame self contours = Inr (s', det, ds)
          \<and> length (tracked_objects s') \<le> 100)
      \<and> (\<exists>s'. run_loop self evs = Inr s' \<and> length (tracked_objects s') \<le> 100))
   \<and> (\<exists>s'. run_loop (init line_y mn mx thr rng) evs = Inr s'
         \<and> length (tracked_objects s') \<le> 100)
   \<and> length (tracked_objects (reset self)) = 0
   \<and> (length d = 100 \<longrightarrow>
         deque_append d x = tl d @ [x] \<and> length (deque_append d x) = 100)
   \<and> (length d < 100 \<longrightarrow> deque_append d x = d @ [x])"
proof -
  have a: "\<exists>s' det ds. process_frame self contours = Inr (s', det, ds)
          \<and> length (tracked_objects s') \<le> 100"
    if "length (tracked_objects self) \<le> 100"
    using process_contours_invariants [of self contours] that
    unfolding process_frame_def by blast
  have b: "\<exists>s'. run_loop self evs = Inr s' \<and> length (tracked_objects s') \<le> 100"
    if "length (tracked_objects self) \<le> 100"
    using run_loop_invariants [OF that, of evs] by blast
  have "length (tracked_objects (init line_y mn mx thr rng)) \<le> 100"
    by (simp add: init_def)
  from run_loop_invariants [OF this, of evs]
  have c: "\<exists>s'. run_loop (init line_y mn mx thr rng) evs = Inr s'
         \<and> length (tracked_objects s') \<le> 100"
    by blast
  have d: "length (tracked_objects (reset self)) = 0"
    by (simp add: reset_def)
  have e: "deque_append d x = tl d @ [x] \<and> length (deque_append d x) = 100"
    if "length d = 100"
    using that by (simp add: deque_append_eq)
  have f: "deque_append d x = d @ [x]" if "length d < 100"
    using that by (simp add: deque_append_eq)
  from a b c d e f show ?thesis by blast
qed

theorem history_bounded_witness:
  "length (tracked_objects full_counter) \<le> 100
   \<and> length (replicate 100 (0::int, 250::int)) = 100
   \<and> deque_append (replicate 100 (0::int, 250::int)) (100, 250)
       = replicate 99 (0, 250) @ [(100, 250)]
   \<and> length [(0::int, 250::int)] < 100
   \<and> deque_append [(0::int, 250::int)] (100, 250) = [(0, 250), (100, 250)]
   \<and> (\<exists>s' det ds. process_frame full_counter [scenario_blob] = Inr (s', det, ds)
          \<and> length (tracked_objects s') \<le> 100)"
proof -
  have h: "length (tracked_objects full_counter) \<le> 100"
    by (simp add: full_counter_def)
  have l: "length (replicate 100 (0::int, 250::int)) = 100" by simp
  have t: "tl (replicate 100 (0::int, 250::int)) = replicate 99 (0, 250)" by simp
  from history_bounded
    [where self = full_counter and contours = "[scenario_blob]" and evs = "[]"
       and d = "replicate 100 (0::int, 250::int)" and x = "(100, 250)"] h l t
  have "deque_append (replicate 100 (0::int, 250::int)) (100, 250)
       = replicate 99 (0, 250) @ [(100, 250)]
     \<and> (\<exists>s' det ds. process_frame full_counter [scenario_blob] = Inr (s', det, ds)
          \<and> length (tracked_objects s') \<le> 100)"
    by simp
  moreover from history_bounded [where d = "[(0::int, 250::int)]" and x = "(100, 250)"]
  have "deque_append [(0::int, 250::int)] (100, 250) = [(0, 250), (100, 250)]"
    by simp
  ultimately show ?thesis using h l by simp
qed

text \<open>
  C7. The reset sets \<open>object_count\<close> to 0 and empties the history, leaving the
  configuration as it was; the main loop applies it as a whole on the key r. After a
  reset, a frame with one accepted contour at the line is counted whatever was counted
  before: the count is 1 and the history holds that one centre.
\<close>

theorem reset_then_count_again:
  "object_count (reset self) = 0 \<and> tracked_objects (reset self) = []
   \<and> same_config self (reset self)
   \<and> (process_frame self contours = Inr (s', det, ds) \<longrightarrow>
        run_loop self ((contours, 114) # rest) = run_loop (reset s') rest)
   \<and> (is_box_like_shape self c = Inr (True, Some p, bb) \<and> has_crossed_line self p \<longrightarrow>
        process_frame (reset self) [c]
          = Inr (self\<lparr>object_count := 1, tracked_objects := [p]\<rparr>, [(p, bb)], [True]))"
proof -
  have a: "run_loop self ((contours, 114) # rest) = run_loop (reset s') rest"
    if "process_frame self contours = Inr (s', det, ds)"
    using that by simp
  have b: "process_frame (reset self) [c]
          = Inr (self\<lparr>object_count := 1, tracked_objects := [p]\<rparr>, [(p, bb)], [True])"
    if acc: "is_box_like_shape self c = Inr (True, Some p, bb)"
      and line: "has_crossed_line self p"
  proof -
    have "is_box_like_shape (reset self) c = Inr (True, Some p, bb)"
      using acc is_box_like_shape_config [OF same_config_reset, of self c] by simp
    moreover have "consider_center (reset self) p
        = (True, self\<lparr>object_count := 1, tracked_objects := [p]\<rparr>)"
      using line
      by (cases p)
        (simp add: consider_center_def has_crossed_line_def is_duplicate_object_def
          reset_def deque_append_eq)
    ultimately show ?thesis
      by (simp add: process_frame_def process_contours_accept)
  qed
  from a b show ?thesis
    by (simp add: reset_def same_config_def)
qed

theorem reset_then_count_again_witness:
  "process_frame counted_five [scenario_blob]
     = Inr (counted_five, [((100, 250), Some (75, 225, 50, 50))], [False])
   \<and> reset counted_five = default_counter
   \<and> process_frame (reset counted_five) [scenario_blob]
     = Inr (default_counter\<lparr>object_count := 1, tracked_objects := [(100, 250)]\<rparr>,
            [((100, 250), Some (75, 225, 50, 50))], [True])
   \<and> run_loop counted_five [([scenario_blob], 114), ([scenario_blob], 113)]
     = Inr (default_counter\<lparr>object_count := 1, tracked_objects := [(100, 250)]\<rparr>)"
proof -
  have a: "is_box_like_shape counted_five scenario_blob
     = Inr (True, Some (100, 250), Some (75, 225, 50, 50))"
    by (simp add: is_box_like_shape_def aspect_ratio_of_def solidity_rejects_def truediv_def
        counted_five_def default_counter_def init_def scenario_blob_def)
  have l: "has_crossed_line counted_five (100, 250)"
    by (simp add: has_crossed_line_def counted_five_def default_counter_def init_def)
  have d: "consider_center counted_five (100, 250) = (False, counted_five)"
    by (simp add: consider_center_def is_duplicate_object_def counted_five_def
        default_counter_def init_def sqrt_less_iff)
  have f: "process_frame counted_five [scenario_blob]
     = Inr (counted_five, [((100, 250), Some (75, 225, 50, 50))], [False])"
    unfolding process_frame_def process_contours_accept [OF a] d by simp
  have r: "reset counted_five = default_counter"
    by (simp add: reset_def counted_five_def default_counter_def init_def)
  have u: "counted_five\<lparr>object_count := 1, tracked_objects := [(100, 250)]\<rparr>
      = default_counter\<lparr>object_count := 1, tracked_objects := [(100, 250)]\<rparr>"
    by (simp add: counted_five_def)
  note t = reset_then_count_again
    [where self = counted_five and contours = "[scenario_blob]" and s' = counted_five
       and det = "[((100, 250), Some (75, 225, 50, 50))]" and ds = "[False]"
       and c = scenario_blob and p = "(100, 250)" and bb = "Some (75, 225, 50, 50)"
       and rest = "[([scenario_blob], 113)]"]
  have g: "process_frame (reset counted_five) [scenario_blob]
     = Inr (default_counter\<lparr>object_count := 1, tracked_objects := [(100, 250)]\<rparr>,
            [((100, 250), Some (75, 225, 50, 50))], [True])"
    using t a l u by simp
  have "run_loop counted_five [([scenario_blob], 114), ([scenario_blob], 113)]
     = run_loop (reset counted_five) [([scenario_blob], 113)]"
    using t f by simp
  also have "\<dots> = Inr (default_counter\<lparr>object_count := 1, tracked_objects := [(100, 250)]\<rparr>)"
    using g by simp
  finally show ?thesis using f r g by simp
qed

end
